theory Spec2Isabelle
  imports Main "HOL-Library.Multiset" "HOL-Library.Word" "HOL-Library.List_Lexorder"
begin

section \<open>Strings and result items\<close>

text \<open>
  A Python \<open>str\<close> is a sequence of Unicode code points, so it is modelled as a list of
  code points (an emoji glyph such as U+1F600 is one element). \<open>ustr\<close> embeds an ASCII
  literal of the source.
\<close>

type_synonym pystr = "nat list"

definition ustr :: "string \<Rightarrow> pystr" where
  "ustr s = map of_char s"

text \<open>
  A result item is the dict every source builds: the keys \<open>name\<close>, \<open>url\<close>, \<open>type\<close>,
  \<open>source\<close> and, for imported local files only, \<open>original_url\<close>.
\<close>

record item =
  name :: pystr
  url :: pystr
  type :: pystr
  source :: pystr
  original_url :: "pystr option"

section \<open>Favorites: \<open>ImageCard.toggle_fav\<close>\<close>

text \<open>
  The favorites file either does not exist, exists but cannot be parsed (the \<open>except: pass\<close>
  leaves \<open>favs = []\<close>), or holds a list of items.
\<close>

datatype favs_file = Missing | Unreadable | Stored "item list"

definition load_favs :: "favs_file \<Rightarrow> item list" where
  "load_favs f = (case f of Stored xs \<Rightarrow> xs | _ \<Rightarrow> [])"

text \<open>
  The loop \<open>for i, item in enumerate(favs): if item['url'] == self.data['url']: favs.pop(i);
  found = True; break\<close>: the list after the loop, and \<open>found\<close>.
\<close>

fun pop_first :: "pystr \<Rightarrow> item list \<Rightarrow> item list \<times> bool" where
  "pop_first u [] = ([], False)"
| "pop_first u (x # xs) =
     (if url x = u then (xs, True)
      else (case pop_first u xs of (ys, found) \<Rightarrow> (x # ys, found)))"

text \<open>
  \<open>toggle_fav\<close> returns the file as rewritten by \<open>json.dump\<close> and the new star state
  \<open>not found\<close>.
\<close>

definition toggle_fav :: "item \<Rightarrow> favs_file \<Rightarrow> favs_file \<times> bool" where
  "toggle_fav data f =
     (case pop_first (url data) (load_favs f) of
        (favs, found) \<Rightarrow>
          (Stored (if \<not> found then favs @ [data] else favs), \<not> found))"

text \<open>A sequence of toggles, one card after the other.\<close>

fun toggles :: "item list \<Rightarrow> favs_file \<Rightarrow> favs_file" where
  "toggles [] f = f"
| "toggles (x # xs) f = toggles xs (fst (toggle_fav x f))"

definition no_dup_urls :: "favs_file \<Rightarrow> bool" where
  "no_dup_urls f = distinct (map url (load_favs f))"

section \<open>Cache file names: \<open>ImageCard.load_bytes\<close>\<close>

text \<open>
  \<open>str(n)\<close> of a non-negative integer: its decimal digits, as code points.
  \<open>str_int\<close> is \<open>str\<close> on any integer.
\<close>

fun digits :: "nat \<Rightarrow> pystr" where
  "digits n = (if n < 10 then [48 + n] else digits (n div 10) @ [48 + n mod 10])"

declare digits.simps [simp del]

definition str_int :: "int \<Rightarrow> pystr" where
  "str_int i = (if i < 0 then 45 # digits (nat (- i)) else digits (nat i))"

text \<open>
  \<open>fname = f"tmp_{abs(hash(self.data['url']))}{ext}"\<close> with
  \<open>ext = ".gif" if self.data['type'] == 'gif' else ".webp"\<close>.
  Python's \<open>hash\<close> of a string is a function fixed for one process run (it is keyed
  by a per-process random seed) whose value is a signed 64-bit integer; it is a
  parameter of the model, of type \<open>pystr \<Rightarrow> 64 word\<close>, read as signed by \<open>sint\<close>.
\<close>

definition ext_of :: "item \<Rightarrow> pystr" where
  "ext_of data = (if type data = ustr ''gif'' then ustr ''.gif'' else ustr ''.webp'')"

definition cache_fname :: "(pystr \<Rightarrow> 64 word) \<Rightarrow> item \<Rightarrow> pystr" where
  "cache_fname hash data =
     ustr ''tmp_'' @ str_int (abs (sint (hash (url data)))) @ ext_of data"

text \<open>
  \<open>str(DATA_DIR / fname)\<close>: \<open>DATA_DIR\<close> is a normalised path below the home directory,
  so the file name is joined to it by one slash.
\<close>

definition path_join :: "pystr \<Rightarrow> pystr \<Rightarrow> pystr" where
  "path_join dir fname = dir @ ustr ''/'' @ fname"

text \<open>
  \<open>load_bytes(data_bytes, local_path=None)\<close>: the path the card resolves to
  (\<open>self.local_path\<close>) and the file it writes, if any. \<open>if local_path:\<close> is false for
  \<open>None\<close> and for the empty string; \<open>if data_bytes:\<close> is false for \<open>None\<close> and for
  no bytes. The display of the file (QMovie, QPixmap) is not modelled.
\<close>

type_synonym bytes = "nat list"

definition load_bytes ::
  "pystr \<Rightarrow> (pystr \<Rightarrow> 64 word) \<Rightarrow> item \<Rightarrow> bytes option \<Rightarrow> pystr option
     \<Rightarrow> pystr \<times> (pystr \<times> bytes) option" where
  "load_bytes data_dir hash data data_bytes local_path =
     (let cached = path_join data_dir (cache_fname hash data);
          written = (case data_bytes of
                       None \<Rightarrow> None
                     | Some b \<Rightarrow> if b \<noteq> [] then Some (cached, b) else None)
      in case local_path of
           None \<Rightarrow> (cached, written)
         | Some p \<Rightarrow> if p \<noteq> [] then (p, None) else (cached, written))"

text \<open>
  The outcome of \<open>ImageDownloadWorker.run\<close>: the signal \<open>image_loaded\<close> with the body of
  a 200 response, or \<open>failed\<close>.
\<close>

datatype download = Loaded bytes | Failed

text \<open>
  The path \<open>ImageCard.__init__\<close> resolves an item to: \<open>"EMOJI"\<close> for an emoji, the item's
  own path for a local file, and for every other type the cache file \<open>load_bytes\<close>
  names once the download has delivered its bytes; a failed download leaves
  \<open>self.local_path = None\<close>. (No source builds an item with an \<open>"error"\<close> key, so that
  branch of the constructor is left out.)
\<close>

definition card_local_path ::
  "pystr \<Rightarrow> (pystr \<Rightarrow> 64 word) \<Rightarrow> item \<Rightarrow> download \<Rightarrow> pystr option" where
  "card_local_path data_dir hash data dl =
     (if type data = ustr ''emoji'' then Some (ustr ''EMOJI'')
      else if type data = ustr ''local''
        then Some (fst (load_bytes data_dir hash data None (Some (url data))))
      else (case dl of
              Loaded b \<Rightarrow> Some (fst (load_bytes data_dir hash data (Some b) None))
            | Failed \<Rightarrow> None))"

text \<open>Items used as concrete inputs below.\<close>

definition cat_gif :: item where
  "cat_gif = \<lparr>name = ustr ''cat'', url = ustr ''https://m.example/cat'',
              type = ustr ''gif'', source = ustr ''Tenor'', original_url = None\<rparr>"

definition cat_webp :: item where
  "cat_webp = \<lparr>name = ustr ''cat'', url = ustr ''https://m.example/cat'',
               type = ustr ''webp'', source = ustr ''7TV'', original_url = None\<rparr>"

definition dog_gif :: item where
  "dog_gif = \<lparr>name = ustr ''dog'', url = ustr ''https://m.example/dog'',
              type = ustr ''gif'', source = ustr ''Tenor'', original_url = None\<rparr>"

section \<open>Temporary files: \<open>cleanup_temp_files\<close>\<close>

text \<open>
  The data directory is absent (\<open>None\<close>) or holds entries, given by name. \<open>is_tmp\<close> is
  the glob pattern \<open>tmp_*\<close> on an entry's name. \<open>p.unlink()\<close> can fail (the entry is a
  directory, or may not be removed): \<open>unlink_ok\<close> says for which names it succeeds; a
  failure is printed and the loop goes on.
\<close>

definition is_tmp :: "pystr \<Rightarrow> bool" where
  "is_tmp n = (take 4 n = ustr ''tmp_'')"

fun unlink_each :: "(pystr \<Rightarrow> bool) \<Rightarrow> pystr list \<Rightarrow> pystr list \<Rightarrow> pystr list" where
  "unlink_each unlink_ok [] entries = entries"
| "unlink_each unlink_ok (p # ps) entries =
     unlink_each unlink_ok ps (if unlink_ok p then removeAll p entries else entries)"

definition cleanup_temp_files :: "(pystr \<Rightarrow> bool) \<Rightarrow> pystr list option \<Rightarrow> pystr list option" where
  "cleanup_temp_files unlink_ok data_dir =
     (case data_dir of
        None \<Rightarrow> None
      | Some entries \<Rightarrow> Some (unlink_each unlink_ok (filter is_tmp entries) entries))"

text \<open>\<open>App.closeEvent\<close> runs the sweep and accepts the event.\<close>

definition closeEvent :: "(pystr \<Rightarrow> bool) \<Rightarrow> pystr list option \<Rightarrow> pystr list option" where
  "closeEvent unlink_ok data_dir = cleanup_temp_files unlink_ok data_dir"

section \<open>Sources: slices, matching, the emoji catalog\<close>

definition BATCH_SIZE :: int where
  "BATCH_SIZE = 50"

text \<open>
  \<open>xs[lo:hi]\<close> on integers: a negative index counts from the end, and both ends are
  clamped to the list.
\<close>

definition py_slice :: "'a list \<Rightarrow> int \<Rightarrow> int \<Rightarrow> 'a list" where
  "py_slice xs lo hi =
     (let n = int (length xs);
          l = (if lo < 0 then max (lo + n) 0 else min lo n);
          h = (if hi < 0 then max (hi + n) 0 else min hi n)
      in if l < h then take (nat (h - l)) (drop (nat l) xs) else [])"

text \<open>\<open>q in s\<close> on strings: \<open>q\<close> occurs in \<open>s\<close> as a contiguous run.\<close>

fun str_in :: "pystr \<Rightarrow> pystr \<Rightarrow> bool" where
  "str_in q [] = (q = [])"
| "str_in q (c # cs) = (take (length q) (c # cs) = q \<or> str_in q cs)"

definition endswith :: "pystr \<Rightarrow> pystr \<Rightarrow> bool" where
  "endswith s suffix = (length suffix \<le> length s \<and> drop (length s - length suffix) s = suffix)"

text \<open>
  \<open>pos if pos else 0\<close> for a cursor that is \<open>None\<close> or an integer.
\<close>

definition offset_of :: "int option \<Rightarrow> int" where
  "offset_of pos = (case pos of None \<Rightarrow> 0 | Some p \<Rightarrow> if p \<noteq> 0 then p else 0)"

text \<open>
  \<open>EmojiSource._load_emojis\<close>. \<open>unicodedata.name\<close> is a parameter, \<open>uname\<close>, from code
  points to names, \<open>None\<close> where Python raises \<open>ValueError\<close>; so are \<open>str.lower\<close> and
  \<open>str.title\<close>. The state of the loop is \<open>self.all_emojis\<close> and \<open>seen\<close>.
\<close>

definition emoji_ranges :: "(nat \<times> nat) list" where
  "emoji_ranges =
     [(0x1F600, 0x1F64F), (0x1F300, 0x1F5FF), (0x1F680, 0x1F6FF), (0x1F900, 0x1F9FF),
      (0x2600, 0x26FF), (0x2700, 0x27BF), (0x1F1E0, 0x1F1FF), (0x1FA70, 0x1FAFF)]"

definition load_code ::
  "(nat \<Rightarrow> pystr option) \<Rightarrow> (pystr \<Rightarrow> pystr) \<Rightarrow> (pystr \<Rightarrow> pystr) \<Rightarrow> nat
     \<Rightarrow> item list \<times> pystr set \<Rightarrow> item list \<times> pystr set" where
  "load_code uname lower title code st =
     (case st of (all_emojis, seen) \<Rightarrow>
        (let char = [code] in
         case uname code of
           None \<Rightarrow> (all_emojis, seen)
         | Some n \<Rightarrow>
             (let nm = lower n in
              if char \<notin> seen
              then (all_emojis @ [\<lparr>name = title nm, url = char, type = ustr ''emoji'',
                                   source = ustr ''Emoji'', original_url = None\<rparr>],
                    insert char seen)
              else (all_emojis, seen))))"

definition load_range ::
  "(nat \<Rightarrow> pystr option) \<Rightarrow> (pystr \<Rightarrow> pystr) \<Rightarrow> (pystr \<Rightarrow> pystr) \<Rightarrow> nat \<times> nat
     \<Rightarrow> item list \<times> pystr set \<Rightarrow> item list \<times> pystr set" where
  "load_range uname lower title r st =
     (case r of (start, end) \<Rightarrow> fold (load_code uname lower title) [start ..< end + 1] st)"

definition load_emojis ::
  "(nat \<Rightarrow> pystr option) \<Rightarrow> (pystr \<Rightarrow> pystr) \<Rightarrow> (pystr \<Rightarrow> pystr) \<Rightarrow> item list" where
  "load_emojis uname lower title =
     fst (fold (load_range uname lower title) emoji_ranges ([], {}))"

text \<open>\<open>EmojiSource.search(query, pos)\<close> over \<open>self.all_emojis\<close>.\<close>

definition emoji_search ::
  "(pystr \<Rightarrow> pystr) \<Rightarrow> item list \<Rightarrow> pystr \<Rightarrow> int option \<Rightarrow> item list \<times> int option" where
  "emoji_search lower all_emojis query pos =
     (let offset = offset_of pos in
      if query \<noteq> [] then
        (let q = lower query;
             filtered = filter (\<lambda>item. str_in q (lower (name item)) \<or> q = url item) all_emojis;
             sliced = py_slice filtered offset (offset + BATCH_SIZE);
             next_offset = offset + int (length sliced)
         in (sliced, if next_offset \<ge> int (length filtered) then None else Some next_offset))
      else
        (let sliced = py_slice all_emojis offset (offset + BATCH_SIZE) in
         if sliced = [] then ([], None)
         else
           (let next_offset = offset + int (length sliced)
            in (sliced, if next_offset \<ge> int (length all_emojis) then None
                        else Some next_offset))))"

text \<open>
  \<open>LocalSource.search(query, pos)\<close>. \<open>listing\<close> is what \<open>os.listdir(LOCAL_IMG_DIR)\<close>
  returns, in the order it returns it, or \<open>None\<close> when the directory does not exist;
  \<open>imports_map\<close> is the dict read from the imports file (empty when the file is missing
  or unreadable); \<open>local_img_dir\<close> is the directory's path.
\<close>

definition image_exts :: "pystr list" where
  "image_exts = [ustr ''.png'', ustr ''.jpg'', ustr ''.jpeg'', ustr ''.gif'', ustr ''.webp'']"

definition local_match :: "(pystr \<Rightarrow> pystr) \<Rightarrow> pystr \<Rightarrow> pystr \<Rightarrow> bool" where
  "local_match lower query f =
     ((\<exists>e \<in> set image_exts. endswith (lower f) e)
      \<and> (query = [] \<or> str_in (lower query) (lower f)))"

definition local_item :: "pystr \<Rightarrow> (pystr \<rightharpoonup> pystr) \<Rightarrow> pystr \<Rightarrow> item" where
  "local_item local_img_dir imports_map f =
     \<lparr>name = f, url = path_join local_img_dir f, type = ustr ''local'',
      source = ustr ''Local'', original_url = imports_map f\<rparr>"

definition local_search ::
  "(pystr \<Rightarrow> pystr) \<Rightarrow> pystr \<Rightarrow> pystr list option \<Rightarrow> (pystr \<rightharpoonup> pystr) \<Rightarrow> pystr
     \<Rightarrow> int option \<Rightarrow> item list \<times> int option" where
  "local_search lower local_img_dir listing imports_map query pos =
     (let offset = offset_of pos in
      case listing of
        None \<Rightarrow> ([], None)
      | Some files \<Rightarrow>
          (let all_files = filter (local_match lower query) files;
               sliced = py_slice all_files offset (offset + BATCH_SIZE)
           in if sliced = [] then ([], None)
              else
                (let results = map (local_item local_img_dir imports_map) sliced;
                     next_offset = offset + int (length sliced)
                 in (results, if next_offset \<ge> int (length all_files) then None
                              else Some next_offset))))"

text \<open>
  A cursor chain: \<open>search\<close> is called with no cursor, then with each cursor it returned,
  until it returns none. \<open>chain search fuel pos\<close> is the list of pages of a chain that
  ends within \<open>fuel\<close> calls, and \<open>None\<close> when the chain is longer.
\<close>

fun chain :: "(int option \<Rightarrow> 'a list \<times> int option) \<Rightarrow> nat \<Rightarrow> int option \<Rightarrow> 'a list list option" where
  "chain search 0 pos = None"
| "chain search (Suc fuel) pos =
     (case search pos of
        (page, None) \<Rightarrow> Some [page]
      | (page, Some next_pos) \<Rightarrow> map_option ((#) page) (chain search fuel (Some next_pos)))"

text \<open>
  The listings the two finite sources page through: the emoji that match a query (all
  of them for the empty query), as \<open>EmojiSource.search\<close> filters them, and \<open>str.lower\<close>
  on ASCII strings, used where a concrete \<open>lower\<close> is needed.
\<close>

definition emoji_matching :: "(pystr \<Rightarrow> pystr) \<Rightarrow> item list \<Rightarrow> pystr \<Rightarrow> item list" where
  "emoji_matching lower all_emojis query =
     (if query \<noteq> []
      then filter (\<lambda>item. str_in (lower query) (lower (name item)) \<or> lower query = url item)
             all_emojis
      else all_emojis)"

definition ascii_lower :: "pystr \<Rightarrow> pystr" where
  "ascii_lower s = map (\<lambda>c. if 65 \<le> c \<and> c \<le> 90 then c + 32 else c) s"

text \<open>
  The invariant of the loop in \<open>_load_emojis\<close>: \<open>seen\<close> holds the glyphs of the
  catalog so far, and no glyph is in the catalog twice.
\<close>

definition catalog_ok :: "item list \<times> pystr set \<Rightarrow> bool" where
  "catalog_ok st = (snd st = set (map url (fst st)) \<and> distinct (map url (fst st)))"

text \<open>Directory listings used as concrete inputs below.\<close>

definition three_files :: "pystr list" where
  "three_files = [ustr ''b.png'', ustr ''notes.txt'', ustr ''a.PNG'', ustr ''c.gif'']"

definition two_files :: "pystr list" where
  "two_files = [ustr ''b.png'', ustr ''a.png'']"

section \<open>The Tenor source: \<open>TenorSource.search\<close>\<close>

text \<open>
  What \<open>r.json()\<close> returns, and the value of every Python expression built from it:
  \<open>None\<close>, a bool, an integer, a string, a list or a dict with string keys, given as
  the list of its items (a dict holds a key once). JSON numbers with a fraction are
  left out.
\<close>

datatype json =
  JNull | JBool bool | JNum int | JStr pystr | JArr "json list" | JObj "(pystr \<times> json) list"

text \<open>
  An expression inside the \<open>try\<close> block either raises or returns; \<open>except Exception: pass\<close>
  turns a raise into leaving the block.
\<close>

datatype 'a outcome = Raises | Returns 'a

definition obind :: "'a outcome \<Rightarrow> ('a \<Rightarrow> 'b outcome) \<Rightarrow> 'b outcome" where
  "obind m f = (case m of Raises \<Rightarrow> Raises | Returns x \<Rightarrow> f x)"

text \<open>Truth value of a Python value, as \<open>if x:\<close> and \<open>x or y\<close> take it.\<close>

fun truthy :: "json \<Rightarrow> bool" where
  "truthy JNull = False"
| "truthy (JBool b) = b"
| "truthy (JNum n) = (n \<noteq> 0)"
| "truthy (JStr s) = (s \<noteq> [])"
| "truthy (JArr xs) = (xs \<noteq> [])"
| "truthy (JObj kvs) = (kvs \<noteq> [])"

text \<open>\<open>x.get(k, default)\<close>: only a dict has \<open>get\<close> (\<open>AttributeError\<close> otherwise).\<close>

fun py_get :: "json \<Rightarrow> pystr \<Rightarrow> json \<Rightarrow> json outcome" where
  "py_get (JObj kvs) k d = Returns (case map_of kvs k of Some v \<Rightarrow> v | None \<Rightarrow> d)"
| "py_get x k d = Raises"

text \<open>
  \<open>k in x\<close> for a string \<open>k\<close>: a key of a dict, an element of a list, a substring of a
  string; \<open>TypeError\<close> on \<open>None\<close>, a bool or a number.
\<close>

fun py_in :: "pystr \<Rightarrow> json \<Rightarrow> bool outcome" where
  "py_in k (JObj kvs) = Returns (k \<in> fst ` set kvs)"
| "py_in k (JArr xs) = Returns (JStr k \<in> set xs)"
| "py_in k (JStr s) = Returns (str_in k s)"
| "py_in k x = Raises"

text \<open>
  \<open>x[k]\<close> for a string \<open>k\<close>: the value of a dict's key (\<open>KeyError\<close> when absent);
  \<open>TypeError\<close> on every other value.
\<close>

fun py_item :: "json \<Rightarrow> pystr \<Rightarrow> json outcome" where
  "py_item (JObj kvs) k = (case map_of kvs k of Some v \<Rightarrow> Returns v | None \<Rightarrow> Raises)"
| "py_item x k = Raises"

text \<open>
  \<open>x[0]\<close> where \<open>x\<close> is truthy: the first element of a list, the first character of a
  string; \<open>KeyError\<close> on a dict (its keys are strings), \<open>TypeError\<close> on a bool or a
  number.
\<close>

fun py_first :: "json \<Rightarrow> json outcome" where
  "py_first (JArr (x # xs)) = Returns x"
| "py_first (JStr (c # cs)) = Returns (JStr [c])"
| "py_first x = Raises"

text \<open>
  Iterating \<open>for item in x\<close>: the elements of a list, the keys of a dict, the characters
  of a string; \<open>TypeError\<close> otherwise.
\<close>

fun py_iter :: "json \<Rightarrow> json list outcome" where
  "py_iter (JArr xs) = Returns xs"
| "py_iter (JObj kvs) = Returns (map (\<lambda>kv. JStr (fst kv)) kvs)"
| "py_iter (JStr s) = Returns (map (\<lambda>c. JStr [c]) s)"
| "py_iter x = Raises"

text \<open>\<open>x.strip()\<close>: only a string has \<open>strip\<close>; \<open>str.strip\<close> itself is a parameter.\<close>

fun py_strip :: "(pystr \<Rightarrow> pystr) \<Rightarrow> json \<Rightarrow> pystr outcome" where
  "py_strip strip (JStr s) = Returns (strip s)"
| "py_strip strip x = Raises"

text \<open>\<open>x.get('tinygif') or x.get('gif')\<close>.\<close>

definition tiny_or_gif :: "json \<Rightarrow> json outcome" where
  "tiny_or_gif x =
     obind (py_get x (ustr ''tinygif'') JNull)
       (\<lambda>a. if truthy a then Returns a else py_get x (ustr ''gif'') JNull)"

text \<open>\<open>if gif_obj: gif_url = gif_obj['url']\<close>, with \<open>gif_url = None\<close> before.\<close>

definition url_of_obj :: "json \<Rightarrow> json outcome" where
  "url_of_obj gif_obj = (if truthy gif_obj then py_item gif_obj (ustr ''url'') else Returns JNull)"

text \<open>The value of \<open>gif_url\<close> after the \<open>if 'media_formats' in item: ... elif 'media' in item: ...\<close>.\<close>

definition gif_url_of :: "json \<Rightarrow> json outcome" where
  "gif_url_of item =
     obind (py_in (ustr ''media_formats'') item) (\<lambda>has_formats.
       if has_formats then
         obind (py_item item (ustr ''media_formats'')) (\<lambda>formats.
           obind (tiny_or_gif formats) url_of_obj)
       else
         obind (py_in (ustr ''media'') item) (\<lambda>has_media.
           if has_media then
             obind (py_get item (ustr ''media'') (JArr [])) (\<lambda>media_list.
               if truthy media_list then
                 obind (py_first media_list) (\<lambda>m. obind (tiny_or_gif m) url_of_obj)
               else Returns JNull)
           else Returns JNull))"

text \<open>
  \<open>title = item.get('content_description', '').strip() or item.get('title', '').strip()
  or "GIF"\<close>.
\<close>

definition title_of :: "(pystr \<Rightarrow> pystr) \<Rightarrow> json \<Rightarrow> pystr outcome" where
  "title_of strip item =
     obind (py_get item (ustr ''content_description'') (JStr [])) (\<lambda>d.
       obind (py_strip strip d) (\<lambda>t1.
         if t1 \<noteq> [] then Returns t1
         else
           obind (py_get item (ustr ''title'') (JStr [])) (\<lambda>t.
             obind (py_strip strip t) (\<lambda>t2.
               if t2 \<noteq> [] then Returns t2 else Returns (ustr ''GIF'')))))"

text \<open>One round of the loop: the dict appended to \<open>results\<close>, if any.\<close>

definition tenor_item :: "(pystr \<Rightarrow> pystr) \<Rightarrow> json \<Rightarrow> json option outcome" where
  "tenor_item strip item =
     obind (gif_url_of item) (\<lambda>gif_url.
       obind (title_of strip item) (\<lambda>title.
         if truthy gif_url
         then Returns (Some (JObj [(ustr ''name'', JStr title), (ustr ''url'', gif_url),
                                   (ustr ''type'', JStr (ustr ''gif'')),
                                   (ustr ''source'', JStr (ustr ''Tenor''))]))
         else Returns None))"

text \<open>
  The loop over the results: a raise in one round ends the \<open>try\<close> block with the
  results appended so far.
\<close>

fun tenor_loop :: "(pystr \<Rightarrow> pystr) \<Rightarrow> json list \<Rightarrow> json list \<Rightarrow> json list" where
  "tenor_loop strip [] results = results"
| "tenor_loop strip (item # items) results =
     (case tenor_item strip item of
        Raises \<Rightarrow> results
      | Returns None \<Rightarrow> tenor_loop strip items results
      | Returns (Some r) \<Rightarrow> tenor_loop strip items (results @ [r]))"

definition DEFAULT_TENOR_KEY :: pystr where
  "DEFAULT_TENOR_KEY = ustr ''LIVDSRZULELA''"

text \<open>The url and the parameters of the request, by the configured key.\<close>

definition tenor_request :: "json \<Rightarrow> pystr \<Rightarrow> json \<Rightarrow> pystr \<times> (pystr \<times> json) list" where
  "tenor_request api_key query pos =
     (if api_key = JStr DEFAULT_TENOR_KEY then
        (ustr ''https://g.tenor.com/v1/search'',
         [(ustr ''q'', JStr query), (ustr ''key'', api_key), (ustr ''limit'', JNum BATCH_SIZE)]
         @ (if truthy pos then [(ustr ''pos'', pos)] else []))
      else
        (ustr ''https://tenor.googleapis.com/v2/search'',
         [(ustr ''q'', JStr query), (ustr ''key'', api_key),
          (ustr ''client_key'', JStr (ustr ''bane_board_v1'')),
          (ustr ''limit'', JNum BATCH_SIZE), (ustr ''media_filter'', JStr (ustr ''minimal''))]
         @ (if truthy pos then [(ustr ''pos'', pos)] else [])))"

text \<open>
  A response: its status code and what \<open>r.json()\<close> gives (\<open>None\<close> when it raises).
  \<open>requests_get\<close> is the network: it raises (timeout, transport error) or returns a
  response. \<open>api_key\<close> is \<open>config.get("tenor_key", DEFAULT_TENOR_KEY)\<close>.
\<close>

datatype response = Response int "json option"

definition tenor_search ::
  "(pystr \<Rightarrow> pystr) \<Rightarrow> (pystr \<times> (pystr \<times> json) list \<Rightarrow> response outcome) \<Rightarrow> json \<Rightarrow> pystr
     \<Rightarrow> json \<Rightarrow> json list \<times> json" where
  "tenor_search strip requests_get api_key query pos =
     (case requests_get (tenor_request api_key query pos) of
        Raises \<Rightarrow> ([], JNull)
      | Returns (Response status_code body) \<Rightarrow>
          if status_code = 200 then
            (case body of
               None \<Rightarrow> ([], JNull)
             | Some data \<Rightarrow>
                 (case obind (py_get data (ustr ''next'') JNull)
                         (\<lambda>a. if truthy a then Returns a
                               else py_get data (ustr ''next_pos'') JNull) of
                    Raises \<Rightarrow> ([], JNull)
                  | Returns next_pos \<Rightarrow>
                      (case obind (py_get data (ustr ''results'') (JArr [])) py_iter of
                         Raises \<Rightarrow> ([], next_pos)
                       | Returns items \<Rightarrow> (tenor_loop strip items [], next_pos))))
          else ([], JNull))"

text \<open>A response body used as a concrete input below: one result with a preview.\<close>

definition one_gif_body :: json where
  "one_gif_body =
     JObj [(ustr ''next'', JStr (ustr ''42'')),
           (ustr ''results'',
            JArr [JObj [(ustr ''title'', JStr (ustr ''cat'')),
                        (ustr ''media'',
                         JArr [JObj [(ustr ''tinygif'',
                                      JObj [(ustr ''url'', JStr (ustr ''https://m.example/cat''))])]])],
                  JNum 5])]"

section \<open>The scroll driver: \<open>App\<close>\<close>

text \<open>
  The entries of \<open>search_card_widgets\<close>: a card built from a result, or the label
  \<open>"No results found."\<close>.
\<close>

datatype widget = Card item | Label pystr

text \<open>
  A \<open>SearchWorker\<close> that was started and whose \<open>results_ready\<close> signal has not been
  delivered yet: an outstanding page fetch, with the source, query and cursor it was
  constructed with.
\<close>

record fetch =
  f_source :: pystr
  f_query :: pystr
  f_pos :: json

text \<open>
  The fields of \<open>App\<close> that the search path reads or writes; \<open>loading_indicator\<close> says
  whether the attribute of that name is set (\<open>hasattr\<close>), and \<open>workers\<close> are the
  outstanding fetches, oldest first. The cursor is a Python value: \<open>None\<close>, an offset
  or page number, or Tenor's token.
\<close>

record app =
  next_ptr :: json
  is_loading :: bool
  current_query :: pystr
  current_source_name :: pystr
  search_card_widgets :: "widget list"
  loading_indicator :: bool
  workers :: "fetch list"

text \<open>The state \<open>App.__init__\<close> leaves.\<close>

definition init_app :: app where
  "init_app = \<lparr>next_ptr = JNull, is_loading = False, current_query = [],
               current_source_name = [], search_card_widgets = [],
               loading_indicator = False, workers = []\<rparr>"

definition load_more :: "app \<Rightarrow> app" where
  "load_more s =
     s\<lparr>is_loading := True,
       loading_indicator := (if search_card_widgets s = [] then True else loading_indicator s),
       workers := workers s @ [\<lparr>f_source = current_source_name s, f_query = current_query s,
                                f_pos = next_ptr s\<rparr>]\<rparr>"

text \<open>
  \<open>App.search\<close>, with the text of the source box and of the search field as inputs.
\<close>

definition search :: "pystr \<Rightarrow> pystr \<Rightarrow> app \<Rightarrow> app" where
  "search combo_text input_text s =
     load_more (s\<lparr>current_source_name := combo_text, current_query := input_text,
                  next_ptr := JNull, search_card_widgets := []\<rparr>)"

text \<open>
  \<open>App.display_results(results, next_pos)\<close>. The reflow of the grid and the timer that
  calls \<open>fill_screen_if_needed\<close> 50 ms later are events of their own below.
\<close>

definition display_results :: "item list \<Rightarrow> json \<Rightarrow> app \<Rightarrow> app" where
  "display_results results next_pos s =
     (let s1 = s\<lparr>is_loading := False, next_ptr := next_pos, loading_indicator := False\<rparr>
      in if results = [] \<and> search_card_widgets s1 = []
         then s1\<lparr>search_card_widgets := [Label (ustr ''No results found.'')]\<rparr>
         else s1\<lparr>search_card_widgets := search_card_widgets s1 @ map Card results\<rparr>)"

text \<open>
  \<open>App.check_scroll\<close>; \<open>past\<close> is the outcome of the floating-point comparison
  \<open>bar.value() > bar.maximum() * 0.9\<close>.
\<close>

definition check_scroll :: "bool \<Rightarrow> app \<Rightarrow> app" where
  "check_scroll past s =
     (if past then (if \<not> is_loading s \<and> truthy (next_ptr s) then load_more s else s)
      else s)"

text \<open>
  \<open>App.fill_screen_if_needed\<close>; \<open>unfilled\<close> is the outcome of
  \<open>bar.maximum() <= 0 or bar.value() >= bar.maximum() * 0.9\<close>.
\<close>

definition fill_screen_if_needed :: "bool \<Rightarrow> app \<Rightarrow> app" where
  "fill_screen_if_needed unfilled s =
     (if is_loading s \<or> \<not> truthy (next_ptr s) then s
      else if unfilled then load_more s else s)"

text \<open>
  The \<open>results_ready\<close> signal of the \<open>k\<close>-th outstanding worker is delivered: the worker
  is outstanding no more, and \<open>display_results\<close> runs with what it emitted.
\<close>

definition results_ready :: "nat \<Rightarrow> item list \<Rightarrow> json \<Rightarrow> app \<Rightarrow> app" where
  "results_ready k results next_pos s =
     display_results results next_pos
       (s\<lparr>workers := take k (workers s) @ drop (Suc k) (workers s)\<rparr>)"

text \<open>
  What can happen to the window: a search is submitted, the scroll bar moves, a timer
  set by \<open>display_results\<close> or \<open>reflow_grids\<close> fires, a worker delivers its page.
\<close>

datatype event =
  Search pystr pystr | Scroll bool | Fill bool | Ready nat "item list" json

fun step :: "event \<Rightarrow> app \<Rightarrow> app" where
  "step (Search combo_text input_text) s = search combo_text input_text s"
| "step (Scroll past) s = check_scroll past s"
| "step (Fill unfilled) s = fill_screen_if_needed unfilled s"
| "step (Ready k results next_pos) s =
     (if k < length (workers s) then results_ready k results next_pos s else s)"

fun run :: "event list \<Rightarrow> app \<Rightarrow> app" where
  "run [] s = s"
| "run (e # es) s = run es (step e s)"

text \<open>
  The states of one session on its own: it starts with a search submitted while no
  fetch is outstanding, and goes on by scroll events, timers and the arrival of its
  pages, with no further search.
\<close>

inductive session_reach :: "app \<Rightarrow> bool" where
  start: "workers s = [] \<Longrightarrow> session_reach (search combo_text input_text s)"
| scroll: "session_reach s \<Longrightarrow> session_reach (check_scroll past s)"
| fill: "session_reach s \<Longrightarrow> session_reach (fill_screen_if_needed unfilled s)"
| ready: "session_reach s \<Longrightarrow> k < length (workers s)
            \<Longrightarrow> session_reach (results_ready k results next_pos s)"

text \<open>Two searches in a row, used as concrete inputs below.\<close>

definition two_searches :: "event list" where
  "two_searches = [Search (ustr ''Tenor'') (ustr ''cat''), Search (ustr ''Tenor'') (ustr ''dog'')]"

section \<open>Properties of the favorites store\<close>

lemma pop_first_Cons:
  "pop_first u (x # xs) =
     (if url x = u then (xs, True) else (x # fst (pop_first u xs), snd (pop_first u xs)))"
  by (simp split: prod.splits)

declare pop_first.simps(2) [simp del]
declare pop_first_Cons [simp]

lemma pop_first_absent:
  "u \<notin> url ` set xs \<Longrightarrow> pop_first u xs = (xs, False)"
  by (induction xs) auto

lemma pop_first_found:
  "snd (pop_first u xs) = (u \<in> url ` set xs)"
  by (induction xs) auto

lemma pop_first_append_new:
  "u \<notin> url ` set xs \<Longrightarrow> url x = u \<Longrightarrow> pop_first u (xs @ [x]) = (xs, True)"
  by (induction xs) auto

lemma pop_first_subset:
  "set (fst (pop_first u xs)) \<subseteq> set xs"
  by (induction xs) auto

lemma pop_first_distinct:
  "distinct (map url xs) \<Longrightarrow> distinct (map url (fst (pop_first u xs)))"
proof (induction xs)
  case Nil
  then show ?case by simp
next
  case (Cons x xs)
  have sub: "set (fst (pop_first u xs)) \<subseteq> set xs"
    by (rule pop_first_subset)
  from Cons sub show ?case
    by auto
qed

lemma pop_first_removes:
  "distinct (map url xs) \<Longrightarrow> u \<notin> url ` set (fst (pop_first u xs))"
  by (induction xs) auto

lemma pop_first_mset:
  "x \<in> set xs \<Longrightarrow> distinct (map url xs) \<Longrightarrow>
   mset (fst (pop_first (url x) xs)) + {#x#} = mset xs"
proof (induction xs)
  case Nil
  then show ?case by simp
next
  case (Cons y ys)
  show ?case
  proof (cases "url y = url x")
    case True
    with Cons.prems have "y = x" by (auto simp: image_iff)
    with True show ?thesis by simp
  next
    case False
    with Cons.prems have "x \<in> set ys" and "distinct (map url ys)" by auto
    with Cons.IH have "mset (fst (pop_first (url x) ys)) + {#x#} = mset ys" by simp
    with False show ?thesis by simp
  qed
qed

lemma pop_first_url_mset:
  "u \<in> url ` set xs \<Longrightarrow> mset (map url (fst (pop_first u xs))) + {#u#} = mset (map url xs)"
  by (induction xs) auto

lemma toggle_fav_unfold:
  "toggle_fav data f =
     (Stored (if \<not> snd (pop_first (url data) (load_favs f))
              then fst (pop_first (url data) (load_favs f)) @ [data]
              else fst (pop_first (url data) (load_favs f))),
      \<not> snd (pop_first (url data) (load_favs f)))"
  by (simp add: toggle_fav_def split: prod.splits)

lemma pop_first_filter:
  "distinct (map url xs) \<Longrightarrow> fst (pop_first u xs) = filter (\<lambda>y. url y \<noteq> u) xs"
proof (induction xs)
  case Nil
  then show ?case by simp
next
  case (Cons x xs)
  show ?case
  proof (cases "url x = u")
    case True
    with Cons.prems have "\<And>y. y \<in> set xs \<Longrightarrow> url y \<noteq> u"
      by (auto simp: image_iff)
    then have "filter (\<lambda>y. url y \<noteq> u) xs = xs"
      by (simp add: filter_id_conv)
    with True show ?thesis by simp
  next
    case False
    with Cons show ?thesis by simp
  qed
qed

text \<open>
  C7 (as amended). For a stored list with no two entries of one url, two toggles of the
  same item leave the same urls stored, each once. When no entry had the item's url,
  the list is the same as before. When one had, that entry is removed and the item's
  own record is appended: the list is the old one without that entry, followed by the
  item, so the entry has moved to the end and holds the toggled item's record.
\<close>

theorem toggle_fav_twice:
  assumes wf: "distinct (map url S)"
  shows "fst (toggle_fav x (fst (toggle_fav x (Stored S))))
           = Stored (if url x \<in> url ` set S
                     then filter (\<lambda>y. url y \<noteq> url x) S @ [x] else S)
       \<and> mset (map url (load_favs (fst (toggle_fav x (fst (toggle_fav x (Stored S)))))))
           = mset (map url S)"
proof (cases "url x \<in> url ` set S")
  case False
  then have "toggle_fav x (Stored S) = (Stored (S @ [x]), True)"
    by (simp add: toggle_fav_def load_favs_def pop_first_absent)
  moreover from False have "pop_first (url x) (S @ [x]) = (S, True)"
    by (simp add: pop_first_append_new)
  ultimately have "fst (toggle_fav x (fst (toggle_fav x (Stored S)))) = Stored S"
    by (simp add: toggle_fav_def load_favs_def)
  with False show ?thesis by (simp add: load_favs_def)
next
  case True
  define R where "R = fst (pop_first (url x) S)"
  from True have found: "snd (pop_first (url x) S) = True"
    by (simp add: pop_first_found)
  then have first: "toggle_fav x (Stored S) = (Stored R, False)"
    by (simp add: toggle_fav_unfold load_favs_def R_def)
  from wf have "url x \<notin> url ` set R"
    unfolding R_def by (rule pop_first_removes)
  then have "pop_first (url x) R = (R, False)"
    by (rule pop_first_absent)
  with first have second: "fst (toggle_fav x (fst (toggle_fav x (Stored S)))) = Stored (R @ [x])"
    by (simp add: toggle_fav_def load_favs_def)
  from wf have R: "R = filter (\<lambda>y. url y \<noteq> url x) S"
    unfolding R_def by (rule pop_first_filter)
  from True have urls: "mset (map url (R @ [x])) = mset (map url S)"
    using pop_first_url_mset [of "url x" S] by (simp add: R_def)
  from second urls True show ?thesis
    unfolding R by (simp add: load_favs_def)
qed

lemma toggle_fav_no_dup:
  "no_dup_urls f \<Longrightarrow> no_dup_urls (fst (toggle_fav x f))"
proof -
  assume wf: "no_dup_urls f"
  define S where "S = load_favs f"
  from wf have d: "distinct (map url S)" by (simp add: no_dup_urls_def S_def)
  show ?thesis
  proof (cases "url x \<in> url ` set S")
    case True
    then have "fst (toggle_fav x f) = Stored (fst (pop_first (url x) S))"
      by (simp add: toggle_fav_unfold pop_first_found S_def)
    with pop_first_distinct [OF d] show ?thesis
      by (simp add: no_dup_urls_def load_favs_def)
  next
    case False
    then have "fst (toggle_fav x f) = Stored (S @ [x])"
      by (simp add: toggle_fav_unfold pop_first_absent S_def)
    with d False show ?thesis
      by (simp add: no_dup_urls_def load_favs_def)
  qed
qed

lemma toggles_no_dup:
  "no_dup_urls f \<Longrightarrow> no_dup_urls (toggles xs f)"
  by (induction xs arbitrary: f) (simp_all add: toggle_fav_no_dup)

lemma distinct_url_entries:
  "distinct (map url xs) \<Longrightarrow> length (filter (\<lambda>y. url y = u) xs) \<le> 1"
proof (induction xs)
  case Nil
  then show ?case by simp
next
  case (Cons x xs)
  show ?case
  proof (cases "url x = u")
    case True
    with Cons.prems have "filter (\<lambda>y. url y = u) xs = []"
      by (auto simp: filter_empty_conv image_iff)
    with True show ?thesis by simp
  next
    case False
    with Cons show ?thesis by simp
  qed
qed

text \<open>
  C8. At most one entry per url: if no url occurs twice in the favorites file, then
  none does after one toggle, nor after any sequence of toggles, so that every url
  has at most one entry whatever was toggled and however often.
\<close>

theorem toggle_fav_invariant:
  assumes "no_dup_urls f"
  shows "no_dup_urls (fst (toggle_fav x f))
       \<and> no_dup_urls (toggles xs f)
       \<and> length (filter (\<lambda>y. url y = u) (load_favs (toggles xs f))) \<le> 1"
proof -
  have a: "no_dup_urls (fst (toggle_fav x f))"
    using assms by (rule toggle_fav_no_dup)
  have b: "no_dup_urls (toggles xs f)"
    using assms by (rule toggles_no_dup)
  then have "distinct (map url (load_favs (toggles xs f)))"
    by (simp add: no_dup_urls_def)
  then have "length (filter (\<lambda>y. url y = u) (load_favs (toggles xs f))) \<le> 1"
    by (rule distinct_url_entries)
  with a b show ?thesis by simp
qed

text \<open>
  Witness for C8: from no file at all, three toggles, the third one with the url of
  the first.
\<close>

theorem toggle_fav_invariant_witness:
  "no_dup_urls Missing
   \<and> fst (toggle_fav cat_gif Missing) = Stored [cat_gif]
   \<and> toggles [cat_gif, dog_gif, cat_webp] Missing = Stored [dog_gif]
   \<and> no_dup_urls (toggles [cat_gif, dog_gif, cat_webp] Missing)"
  using toggle_fav_invariant [of Missing cat_gif "[cat_gif, dog_gif, cat_webp]"]
  by (simp add: no_dup_urls_def load_favs_def toggle_fav_unfold cat_gif_def dog_gif_def
      cat_webp_def ustr_def)

text \<open>
  Witness for C7: two toggles of the last entry of the list, and of an item that is
  not stored, give the list back.
\<close>

theorem toggle_fav_twice_witness:
  "distinct (map url [cat_gif, dog_gif])
   \<and> fst (toggle_fav dog_gif (fst (toggle_fav dog_gif (Stored [cat_gif, dog_gif]))))
       = Stored [cat_gif, dog_gif]
   \<and> fst (toggle_fav cat_gif (fst (toggle_fav cat_gif (Stored [dog_gif]))))
       = Stored [dog_gif]"
  using toggle_fav_twice [of "[cat_gif, dog_gif]" dog_gif]
  by (simp add: load_favs_def toggle_fav_unfold cat_gif_def dog_gif_def ustr_def)

text \<open>
  Counterexample to C7 as stated: two toggles of the first of two stored items leave it
  last, so the list is not the one before; and two toggles of an item with the url of a
  stored record of another type leave that item stored in place of the record.
\<close>

theorem toggle_fav_twice_counterexample:
  "distinct (map url [cat_gif, dog_gif])
   \<and> fst (toggle_fav cat_gif (fst (toggle_fav cat_gif (Stored [cat_gif, dog_gif]))))
       = Stored [dog_gif, cat_gif]
   \<and> [dog_gif, cat_gif] \<noteq> [cat_gif, dog_gif]
   \<and> fst (toggle_fav cat_webp (fst (toggle_fav cat_webp (Stored [cat_gif, dog_gif]))))
       = Stored [dog_gif, cat_webp]
   \<and> cat_gif \<notin> set [dog_gif, cat_webp]"
  by (simp add: load_favs_def toggle_fav_unfold cat_gif_def dog_gif_def cat_webp_def ustr_def)

section \<open>Properties of the cache file names\<close>

lemma digits_nonempty: "digits n \<noteq> []"
  by (subst digits.simps) simp

lemma digits_range: "c \<in> set (digits n) \<Longrightarrow> 48 \<le> c \<and> c \<le> 57"
proof (induction n rule: digits.induct)
  case (1 n)
  show ?case
  proof (cases "n < 10")
    case True
    with "1.prems" show ?thesis by (subst (asm) digits.simps) simp
  next
    case False
    from "1.prems" False have "c \<in> set (digits (n div 10)) \<or> c = 48 + n mod 10"
      by (subst (asm) digits.simps) auto
    then show ?thesis
    proof
      assume "c \<in> set (digits (n div 10))"
      with "1.IH" False show ?thesis by simp
    next
      assume "c = 48 + n mod 10"
      then show ?thesis by simp
    qed
  qed
qed

lemma digits_inj: "digits m = digits n \<Longrightarrow> m = n"
proof (induction m arbitrary: n rule: digits.induct)
  case (1 m)
  show ?case
  proof (cases "m < 10")
    case m: True
    show ?thesis
    proof (cases "n < 10")
      case True
      with m "1.prems" show ?thesis
        by (simp add: digits.simps [of m] digits.simps [of n])
    next
      case False
      with m "1.prems" digits_nonempty [of "n div 10"] show ?thesis
        by (simp add: digits.simps [of m] digits.simps [of n] Cons_eq_append_conv)
    qed
  next
    case m: False
    show ?thesis
    proof (cases "n < 10")
      case True
      with m "1.prems" digits_nonempty [of "m div 10"] show ?thesis
        by (simp add: digits.simps [of m] digits.simps [of n] append_eq_Cons_conv)
    next
      case False
      with m "1.prems" have eq: "digits (m div 10) = digits (n div 10)"
        and r: "m mod 10 = n mod 10"
        by (simp_all add: digits.simps [of m] digits.simps [of n])
      from "1.IH" [OF m eq] have "m div 10 = n div 10" .
      with r show ?thesis by (metis div_mult_mod_eq)
    qed
  qed
qed

lemma ext_of_cases: "ext_of data = 46 # [103, 105, 102] \<or> ext_of data = 46 # [119, 101, 98, 112]"
  by (simp add: ext_of_def ustr_def)

lemma digits_ext_split:
  "takeWhile (\<lambda>c. c \<noteq> 46) (digits n @ ext_of data) = digits n"
proof -
  have "\<And>c. c \<in> set (digits n) \<Longrightarrow> c \<noteq> 46"
    using digits_range by fastforce
  then have "takeWhile (\<lambda>c. c \<noteq> 46) (digits n @ ext_of data)
               = digits n @ takeWhile (\<lambda>c. c \<noteq> 46) (ext_of data)"
    by simp
  with ext_of_cases [of data] show ?thesis by auto
qed

lemma cache_fname_digits:
  "cache_fname hash data
     = ustr ''tmp_'' @ digits (nat (abs (sint (hash (url data))))) @ ext_of data"
  by (simp add: cache_fname_def str_int_def)

lemma cache_fname_eqD:
  assumes eq: "cache_fname hash a = cache_fname hash b"
  shows "abs (sint (hash (url a))) = abs (sint (hash (url b))) \<and> ext_of a = ext_of b"
proof -
  define m where "m = nat (abs (sint (hash (url a))))"
  define n where "n = nat (abs (sint (hash (url b))))"
  from eq have tail: "digits m @ ext_of a = digits n @ ext_of b"
    by (simp add: cache_fname_digits m_def n_def)
  then have "takeWhile (\<lambda>c. c \<noteq> 46) (digits m @ ext_of a)
               = takeWhile (\<lambda>c. c \<noteq> 46) (digits n @ ext_of b)"
    by simp
  then have d: "digits m = digits n"
    by (simp add: digits_ext_split)
  with tail have e: "ext_of a = ext_of b" by simp
  from d have "m = n" by (rule digits_inj)
  then have "abs (sint (hash (url a))) = abs (sint (hash (url b)))"
    by (simp add: m_def n_def)
  with e show ?thesis by simp
qed

text \<open>
  C6 (as amended). Two items get the same cache file name exactly when the absolute
  values of the hashes of their urls agree and their extensions agree. So two urls get
  different file names whenever their hashes differ in absolute value, and only then.
\<close>

theorem cache_fname_eq_iff:
  "cache_fname hash a = cache_fname hash b
     \<longleftrightarrow> (abs (sint (hash (url a))) = abs (sint (hash (url b))) \<and> ext_of a = ext_of b)"
proof
  assume "cache_fname hash a = cache_fname hash b"
  then show "abs (sint (hash (url a))) = abs (sint (hash (url b))) \<and> ext_of a = ext_of b"
    by (rule cache_fname_eqD)
next
  assume "abs (sint (hash (url a))) = abs (sint (hash (url b))) \<and> ext_of a = ext_of b"
  then show "cache_fname hash a = cache_fname hash b"
    by (simp add: cache_fname_def)
qed

lemma hash_collision: "\<exists>u v. u \<noteq> v \<and> (h :: pystr \<Rightarrow> 64 word) u = h v"
proof (rule ccontr)
  assume "\<not> ?thesis"
  then have "inj h" by (auto simp: inj_on_def)
  moreover have "finite (range h)" by (rule finite_subset [OF subset_UNIV]) simp
  ultimately have "finite (UNIV :: pystr set)" by (rule finite_imageD [rotated])
  then show False by (simp add: infinite_UNIV_listI)
qed

text \<open>
  Counterexample to C6 as stated: whatever the hash function of the process is, it has
  64 bits and there are infinitely many urls, so two gif items with different urls are
  given the same cache file name.
\<close>

theorem cache_fname_collision:
  "\<forall>hash :: pystr \<Rightarrow> 64 word. \<exists>a b.
      url a \<noteq> url b \<and> type a = ustr ''gif'' \<and> type b = ustr ''gif''
      \<and> cache_fname hash a = cache_fname hash b"
proof
  fix hash :: "pystr \<Rightarrow> 64 word"
  obtain u v where uv: "u \<noteq> v" "hash u = hash v"
    using hash_collision [of hash] by blast
  define a where "a = cat_gif\<lparr>url := u\<rparr>"
  define b where "b = cat_gif\<lparr>url := v\<rparr>"
  have "url a \<noteq> url b" using uv by (simp add: a_def b_def)
  moreover have "type a = ustr ''gif''" "type b = ustr ''gif''"
    by (simp_all add: a_def b_def cat_gif_def)
  moreover have "cache_fname hash a = cache_fname hash b"
    using uv by (simp add: cache_fname_def ext_of_def a_def b_def)
  ultimately show "\<exists>a b. url a \<noteq> url b \<and> type a = ustr ''gif'' \<and> type b = ustr ''gif''
      \<and> cache_fname hash a = cache_fname hash b"
    by blast
qed

lemma card_local_path_depends:
  "url a = url b \<Longrightarrow> type a = type b \<Longrightarrow>
   load_bytes dd hash a bs lp = load_bytes dd hash b bs lp"
  by (simp add: load_bytes_def cache_fname_def ext_of_def)

lemma load_bytes_path_bytes:
  "fst (load_bytes dd hash a (Some b1) None) = path_join dd (cache_fname hash a)"
  by (simp add: load_bytes_def Let_def)

text \<open>
  C5 (as amended). Two items with the same url and the same type resolve to the same
  local path: whatever bytes their downloads delivered, and in every case when the
  downloads ended alike. In particular one item resolves to one path, however often.
\<close>

theorem card_local_path_same:
  assumes "url a = url b" and "type a = type b"
  shows "card_local_path dd hash a (Loaded b1) = card_local_path dd hash b (Loaded b2)
       \<and> card_local_path dd hash a dl = card_local_path dd hash b dl"
proof -
  from assms have c: "cache_fname hash a = cache_fname hash b"
    by (simp add: cache_fname_def ext_of_def)
  from assms c have 1: "card_local_path dd hash a (Loaded b1) = card_local_path dd hash b (Loaded b2)"
    by (simp add: card_local_path_def load_bytes_def Let_def)
  from assms c have 2: "card_local_path dd hash a dl = card_local_path dd hash b dl"
    by (simp add: card_local_path_def load_bytes_def Let_def split: download.splits)
  from 1 2 show ?thesis by simp
qed

text \<open>
  Witness for C5: the same url and type under two names, with different bytes
  downloaded, in a process whose hash gives 7 for every string.
\<close>

theorem card_local_path_same_witness:
  "url cat_gif = url (cat_gif\<lparr>name := ustr ''kitten''\<rparr>)
   \<and> type cat_gif = type (cat_gif\<lparr>name := ustr ''kitten''\<rparr>)
   \<and> card_local_path (ustr ''/d'') (\<lambda>u. 7) cat_gif (Loaded [71, 73, 70])
       = Some (ustr ''/d/tmp_7.gif'')
   \<and> card_local_path (ustr ''/d'') (\<lambda>u. 7) (cat_gif\<lparr>name := ustr ''kitten''\<rparr>) (Loaded [71])
       = Some (ustr ''/d/tmp_7.gif'')"
  using card_local_path_same [of cat_gif "cat_gif\<lparr>name := ustr ''kitten''\<rparr>"
      "ustr ''/d''" "\<lambda>u. 7" "[71, 73, 70]" "[71]" Failed]
  by (simp add: card_local_path_def load_bytes_def path_join_def cache_fname_def ext_of_def
      str_int_def digits.simps cat_gif_def ustr_def Let_def)

text \<open>
  Counterexample to C5 as stated: a gif item and a webp item with the same url resolve
  to different cache files, whatever the data directory, the hash function of the
  process and the bytes downloaded.
\<close>

theorem card_local_path_kind_counterexample:
  "url cat_gif = url cat_webp
   \<and> (\<forall>dd hash b1 b2. card_local_path dd hash cat_gif (Loaded b1)
                        \<noteq> card_local_path dd hash cat_webp (Loaded b2))"
proof -
  have u: "url cat_gif = url cat_webp"
    by (simp add: cat_gif_def cat_webp_def)
  have "card_local_path dd hash cat_gif (Loaded b1) \<noteq> card_local_path dd hash cat_webp (Loaded b2)"
    for dd hash b1 b2
  proof -
    have g: "card_local_path dd hash cat_gif (Loaded b1)
               = Some (path_join dd (cache_fname hash cat_gif))"
      by (simp add: card_local_path_def load_bytes_path_bytes cat_gif_def ustr_def)
    have w: "card_local_path dd hash cat_webp (Loaded b2)
               = Some (path_join dd (cache_fname hash cat_webp))"
      by (simp add: card_local_path_def load_bytes_path_bytes cat_webp_def ustr_def)
    have "ext_of cat_gif \<noteq> ext_of cat_webp"
      by (simp add: ext_of_def cat_gif_def cat_webp_def ustr_def)
    then have "cache_fname hash cat_gif \<noteq> cache_fname hash cat_webp"
      using cache_fname_eqD by blast
    then show ?thesis using g w by (simp add: path_join_def)
  qed
  with u show ?thesis by blast
qed

section \<open>Properties of the shutdown sweep\<close>

lemma unlink_each_filter:
  "unlink_each ok ps entries = filter (\<lambda>n. \<not> (n \<in> set ps \<and> ok n)) entries"
proof (induction ps arbitrary: entries)
  case Nil
  then show ?case by simp
next
  case (Cons p ps)
  have "removeAll p entries = filter (\<lambda>n. n \<noteq> p) entries"
    by (induction entries) auto
  with Cons show ?case
    by (auto intro: filter_cong)
qed

lemma is_tmp_cache_fname: "is_tmp (cache_fname hash data)"
  by (simp add: is_tmp_def cache_fname_def ustr_def)

text \<open>
  C10. The sweep at shutdown removes every entry of the data directory whose name
  starts with \<open>tmp_\<close>, whichever run created it: when each removal succeeds, what is
  left of the directory is its entries of other names, and no cache file (every name
  \<open>load_bytes\<close> writes to starts with \<open>tmp_\<close>) is among them.
\<close>

theorem cleanup_temp_files_sweeps:
  assumes "\<forall>n \<in> set entries. is_tmp n \<longrightarrow> unlink_ok n"
  shows "closeEvent unlink_ok (Some entries) = Some (filter (\<lambda>n. \<not> is_tmp n) entries)
       \<and> cleanup_temp_files unlink_ok (Some entries) = Some (filter (\<lambda>n. \<not> is_tmp n) entries)
       \<and> cache_fname hash data \<notin> set (filter (\<lambda>n. \<not> is_tmp n) entries)"
proof -
  have "filter (\<lambda>n. \<not> (n \<in> set (filter is_tmp entries) \<and> unlink_ok n)) entries
          = filter (\<lambda>n. \<not> is_tmp n) entries"
    using assms by (auto intro: filter_cong)
  then have "cleanup_temp_files unlink_ok (Some entries) = Some (filter (\<lambda>n. \<not> is_tmp n) entries)"
    by (simp add: cleanup_temp_files_def unlink_each_filter)
  then show ?thesis
    by (simp add: closeEvent_def is_tmp_cache_fname)
qed

text \<open>
  Witness for C10: a data directory with a cache file of this run, one left by an
  earlier run, and the favorites and configuration files.
\<close>

theorem cleanup_temp_files_sweeps_witness:
  "cleanup_temp_files (\<lambda>n. True)
       (Some [ustr ''tmp_7.gif'', ustr ''favorites.json'', ustr ''tmp_123.webp'',
              ustr ''config.json''])
     = Some [ustr ''favorites.json'', ustr ''config.json'']"
  using cleanup_temp_files_sweeps [of "[ustr ''tmp_7.gif'', ustr ''favorites.json'',
      ustr ''tmp_123.webp'', ustr ''config.json'']" "\<lambda>n. True" "\<lambda>u. 7" cat_gif]
  by (simp add: is_tmp_def ustr_def)

section \<open>Properties of the finite sources\<close>

lemma py_slice_batch:
  assumes "0 \<le> lo"
  shows "py_slice xs lo (lo + BATCH_SIZE) = take 50 (drop (nat lo) xs)"
proof (cases "lo < int (length xs)")
  case True
  with assms have "py_slice xs lo (lo + BATCH_SIZE)
      = take (nat (min (lo + 50) (int (length xs)) - lo)) (drop (nat lo) xs)"
    by (simp add: py_slice_def BATCH_SIZE_def Let_def min_def)
  also have "\<dots> = take 50 (drop (nat lo) xs)"
  proof (cases "lo + 50 \<le> int (length xs)")
    case True
    then show ?thesis by (simp add: min_def)
  next
    case False
    with assms have "length (drop (nat lo) xs) \<le> nat (min (lo + 50) (int (length xs)) - lo)"
      and "length (drop (nat lo) xs) \<le> 50"
      by (simp_all add: min_def)
    then show ?thesis by simp
  qed
  finally show ?thesis .
next
  case False
  with assms show ?thesis
    by (simp add: py_slice_def BATCH_SIZE_def Let_def min_def)
qed

lemma offset_of_simps [simp]: "offset_of None = 0" "offset_of (Some p) = p"
  by (simp_all add: offset_of_def)

lemma page_facts:
  assumes "0 \<le> off"
  shows "py_slice L off (off + BATCH_SIZE) = take 50 (drop (nat off) L)"
    and "(int (length L) \<le> off + int (length (take 50 (drop (nat off) L))))
           = (int (length L) \<le> off + 50)"
    and "\<not> int (length L) \<le> off + 50 \<Longrightarrow> int (length (take 50 (drop (nat off) L))) = 50"
    and "take 50 (drop (nat off) L) = [] \<Longrightarrow> int (length L) \<le> off + 50"
  using assms by (auto simp: py_slice_batch min_def)

lemma emoji_search_page:
  assumes "0 \<le> off"
  shows "emoji_search lower all_emojis query (Some off)
           = (take 50 (drop (nat off) (emoji_matching lower all_emojis query)),
              if off + 50 \<ge> int (length (emoji_matching lower all_emojis query)) then None
              else Some (off + 50))"
proof -
  define F where "F = emoji_matching lower all_emojis query"
  define P where "P = take 50 (drop (nat off) F)"
  note pf = page_facts [OF assms, of F, folded P_def]
  have unf: "emoji_search lower all_emojis query (Some off)
      = (if query \<noteq> [] then
           (let sliced = py_slice F off (off + BATCH_SIZE);
                next_offset = off + int (length sliced)
            in (sliced, if next_offset \<ge> int (length F) then None else Some next_offset))
         else
           (let sliced = py_slice F off (off + BATCH_SIZE) in
            if sliced = [] then ([], None)
            else (let next_offset = off + int (length sliced)
                  in (sliced, if next_offset \<ge> int (length F) then None
                              else Some next_offset))))"
    by (cases "query = []") (simp_all add: emoji_search_def emoji_matching_def F_def Let_def)
  show ?thesis
    unfolding unf pf(1) F_def [symmetric] P_def [symmetric]
    using pf(3,4) by (auto simp: Let_def pf(2))
qed

lemma local_search_page:
  assumes "0 \<le> off"
  shows "local_search lower dir (Some files) imports_map query (Some off)
           = (map (local_item dir imports_map)
                (take 50 (drop (nat off) (filter (local_match lower query) files))),
              if off + 50 \<ge> int (length (filter (local_match lower query) files)) then None
              else Some (off + 50))"
proof -
  define F where "F = filter (local_match lower query) files"
  define P where "P = take 50 (drop (nat off) F)"
  note pf = page_facts [OF assms, of F, folded P_def]
  have unf: "local_search lower dir (Some files) imports_map query (Some off)
      = (let sliced = py_slice F off (off + BATCH_SIZE) in
         if sliced = [] then ([], None)
         else (let results = map (local_item dir imports_map) sliced;
                   next_offset = off + int (length sliced)
               in (results, if next_offset \<ge> int (length F) then None
                            else Some next_offset)))"
    by (simp add: local_search_def F_def Let_def)
  show ?thesis
    unfolding unf pf(1) F_def [symmetric] P_def [symmetric]
    using pf(3,4) by (auto simp: Let_def pf(2))
qed

lemma emoji_search_None:
  "emoji_search lower all_emojis query None = emoji_search lower all_emojis query (Some 0)"
  by (simp add: emoji_search_def Let_def)

lemma local_search_None:
  "local_search lower dir listing imports_map query None
     = local_search lower dir listing imports_map query (Some 0)"
  by (simp add: local_search_def Let_def)

lemma chain_pager:
  assumes step: "\<And>off. 0 \<le> off \<Longrightarrow>
      S (Some off) = (map f (take 50 (drop (nat off) L)),
                      if off + 50 \<ge> int (length L) then None else Some (off + 50))"
    and off: "0 \<le> off"
  shows "\<exists>n pages. chain S n (Some off) = Some pages \<and> concat pages = map f (drop (nat off) L)"
  using off
proof (induction "length L - nat off" arbitrary: off rule: less_induct)
  case less
  show ?case
  proof (cases "off + 50 \<ge> int (length L)")
    case True
    with less.prems have "S (Some off) = (map f (drop (nat off) L), None)"
      by (simp add: step)
    then have "chain S (Suc 0) (Some off) = Some [map f (drop (nat off) L)]"
      by simp
    then show ?thesis
      by (metis concat.simps(1,2) append_Nil2)
  next
    case False
    with less.prems have s: "S (Some off) = (map f (take 50 (drop (nat off) L)), Some (off + 50))"
      by (simp add: step)
    from False less.prems have "length L - nat (off + 50) < length L - nat off"
      by linarith
    moreover from less.prems have "0 \<le> off + 50" by simp
    ultimately obtain n pages where
      c: "chain S n (Some (off + 50)) = Some pages"
      and p: "concat pages = map f (drop (nat (off + 50)) L)"
      using less.hyps by blast
    from s c have "chain S (Suc n) (Some off) = Some (map f (take 50 (drop (nat off) L)) # pages)"
      by simp
    moreover have d: "drop (nat (off + 50)) L = drop 50 (drop (nat off) L)"
      using less.prems by (simp add: nat_add_distrib add.commute)
    have "take 50 (drop (nat off) L) @ drop 50 (drop (nat off) L) = drop (nat off) L"
      by (rule append_take_drop_id)
    then have "map f (take 50 (drop (nat off) L)) @ map f (drop 50 (drop (nat off) L))
                 = map f (drop (nat off) L)"
      by (metis map_append)
    then have "concat (map f (take 50 (drop (nat off) L)) # pages) = map f (drop (nat off) L)"
      using p d by simp
    ultimately show ?thesis by blast
  qed
qed

lemma chain_from_None:
  assumes "S None = S (Some 0)"
  shows "chain S n None = chain S n (Some 0)"
  using assms by (cases n) simp_all

lemma fold_invariant:
  assumes "\<And>x st. P st \<Longrightarrow> P (f x st)" and "P st"
  shows "P (fold f xs st)"
  using assms(2) by (induction xs arbitrary: st) (simp_all add: assms(1))

lemma load_code_ok: "catalog_ok st \<Longrightarrow> catalog_ok (load_code uname lower title code st)"
  by (cases st) (auto simp: catalog_ok_def load_code_def Let_def split: option.splits)

lemma load_range_ok: "catalog_ok st \<Longrightarrow> catalog_ok (load_range uname lower title r st)"
  by (cases r) (simp add: load_range_def fold_invariant [where P = catalog_ok] load_code_ok)

lemma load_emojis_distinct: "distinct (map url (load_emojis uname lower title))"
proof -
  have "catalog_ok ([], {})" by (simp add: catalog_ok_def)
  then have "catalog_ok (fold (load_range uname lower title) emoji_ranges ([], {}))"
    by (rule fold_invariant [where P = catalog_ok, rotated]) (rule load_range_ok)
  then show ?thesis by (simp add: catalog_ok_def load_emojis_def)
qed

lemma emoji_matching_distinct:
  "distinct all_emojis \<Longrightarrow> distinct (emoji_matching lower all_emojis query)"
  by (simp add: emoji_matching_def)

lemma local_items_distinct:
  "distinct files \<Longrightarrow> distinct (map (local_item dir imports_map) (filter P files))"
proof -
  assume d: "distinct files"
  have "inj (local_item dir imports_map)"
    by (rule injI) (simp add: local_item_def)
  then have "inj_on (local_item dir imports_map) (set (filter P files))"
    by (rule inj_on_subset) simp
  with d show ?thesis by (simp add: distinct_map)
qed

lemma emoji_chain:
  "\<exists>n pages. chain (emoji_search lower all_emojis query) n None = Some pages
      \<and> concat pages = emoji_matching lower all_emojis query"
proof -
  have "\<exists>n pages. chain (emoji_search lower all_emojis query) n (Some 0) = Some pages
      \<and> concat pages = map (\<lambda>x. x) (drop (nat 0) (emoji_matching lower all_emojis query))"
    by (rule chain_pager) (simp_all add: emoji_search_page)
  then show ?thesis
    by (simp add: chain_from_None [OF emoji_search_None])
qed

lemma local_chain:
  "\<exists>n pages. chain (local_search lower dir (Some files) imports_map query) n None = Some pages
      \<and> concat pages = map (local_item dir imports_map) (filter (local_match lower query) files)"
proof -
  have "\<exists>n pages. chain (local_search lower dir (Some files) imports_map query) n (Some 0) = Some pages
      \<and> concat pages
          = map (local_item dir imports_map) (drop (nat 0) (filter (local_match lower query) files))"
    by (rule chain_pager) (simp_all add: local_search_page)
  then show ?thesis
    by (simp add: chain_from_None [OF local_search_None])
qed

text \<open>
  C3. For the emoji source, over the catalog \<open>_load_emojis\<close> builds, and for the local
  source, over a directory listing (its names are distinct), the chain of calls that
  starts with no cursor and passes each returned cursor on ends after finitely many
  calls with no cursor returned. The pages together are exactly the matching entries,
  each once: no item of one page comes again, on that page or a later one.
\<close>

theorem finite_sources_chain:
  assumes "distinct files"
  shows "(\<exists>n pages. chain (emoji_search lower (load_emojis uname lower title) query) n None
                       = Some pages
            \<and> concat pages = emoji_matching lower (load_emojis uname lower title) query
            \<and> distinct (concat pages))
       \<and> (\<exists>n pages. chain (local_search lower dir (Some files) imports_map query) n None
                       = Some pages
            \<and> concat pages
                = map (local_item dir imports_map) (filter (local_match lower query) files)
            \<and> distinct (concat pages))"
proof -
  have "distinct (load_emojis uname lower title)"
    using load_emojis_distinct [of uname lower title] by (simp add: distinct_map)
  then have de: "distinct (emoji_matching lower (load_emojis uname lower title) query)"
    by (rule emoji_matching_distinct)
  obtain n pages where
    "chain (emoji_search lower (load_emojis uname lower title) query) n None = Some pages"
    and "concat pages = emoji_matching lower (load_emojis uname lower title) query"
    using emoji_chain [of lower "load_emojis uname lower title" query] by blast
  with de have e: "\<exists>n pages. chain (emoji_search lower (load_emojis uname lower title) query) n None
                       = Some pages
            \<and> concat pages = emoji_matching lower (load_emojis uname lower title) query
            \<and> distinct (concat pages)"
    by (intro exI [of _ n] exI [of _ pages]) simp
  from assms have dl: "distinct (map (local_item dir imports_map) (filter (local_match lower query) files))"
    by (rule local_items_distinct)
  obtain m pages' where
    "chain (local_search lower dir (Some files) imports_map query) m None = Some pages'"
    and "concat pages' = map (local_item dir imports_map) (filter (local_match lower query) files)"
    using local_chain [of lower dir files imports_map query] by blast
  with dl have l: "\<exists>n pages. chain (local_search lower dir (Some files) imports_map query) n None
                       = Some pages
            \<and> concat pages
                = map (local_item dir imports_map) (filter (local_match lower query) files)
            \<and> distinct (concat pages)"
    by (intro exI [of _ m] exI [of _ pages']) simp
  from e l show ?thesis by (rule conjI)
qed

lemma three_files_matching:
  "filter (local_match ascii_lower []) three_files = [ustr ''b.png'', ustr ''a.PNG'', ustr ''c.gif'']"
  by (simp add: three_files_def local_match_def image_exts_def endswith_def ascii_lower_def ustr_def)

text \<open>
  Witness for C3: a directory of four entries, three of them images; the chain is one
  call long.
\<close>

theorem finite_sources_chain_witness:
  "distinct three_files
   \<and> chain (local_search ascii_lower (ustr ''/imgs'') (Some three_files) Map.empty []) 1 None
       = Some [map (local_item (ustr ''/imgs'') Map.empty)
                 [ustr ''b.png'', ustr ''a.PNG'', ustr ''c.gif'']]"
  using finite_sources_chain [of three_files ascii_lower "\<lambda>c. None" id "[]" "ustr ''/imgs''" Map.empty]
  by (simp add: local_search_def three_files_matching py_slice_def BATCH_SIZE_def Let_def)
     (simp add: three_files_def ustr_def)

text \<open>
  C9 (as amended). The cursor of the local source is an offset into the listing of the
  entries whose lowered name ends in an image extension and contains the lowered query
  (all of those when the query is empty), in the order \<open>os.listdir\<close> returned them:
  a call returns the next 50 of them from the offset, and it returns no cursor exactly
  when the offset plus the length of the page reaches their number, the cursor being
  that sum otherwise. A first call over at most 50 matching entries returns them all
  and no cursor.
\<close>

theorem local_search_slice:
  assumes "0 \<le> offset_of pos"
  shows "fst (local_search lower dir (Some files) imports_map query pos)
           = map (local_item dir imports_map)
               (take 50 (drop (nat (offset_of pos)) (filter (local_match lower query) files)))
       \<and> (snd (local_search lower dir (Some files) imports_map query pos) = None
            \<longleftrightarrow> offset_of pos
                   + int (length (fst (local_search lower dir (Some files) imports_map query pos)))
                 \<ge> int (length (filter (local_match lower query) files)))
       \<and> (snd (local_search lower dir (Some files) imports_map query pos) \<noteq> None
            \<longrightarrow> snd (local_search lower dir (Some files) imports_map query pos)
                 = Some (offset_of pos
                   + int (length (fst (local_search lower dir (Some files) imports_map query pos)))))
       \<and> (length (filter (local_match lower query) files) \<le> 50
            \<longrightarrow> local_search lower dir (Some files) imports_map query None
                 = (map (local_item dir imports_map) (filter (local_match lower query) files),
                    None))"
proof -
  define off where "off = offset_of pos"
  define F where "F = filter (local_match lower query) files"
  define P where "P = take 50 (drop (nat off) F)"
  from assms have off: "0 \<le> off" by (simp add: off_def)
  note pf = page_facts [OF off, of F, folded P_def]
  have same: "local_search lower dir (Some files) imports_map query pos
                = local_search lower dir (Some files) imports_map query (Some off)"
    by (simp add: local_search_def off_def)
  have r: "local_search lower dir (Some files) imports_map query pos
             = (map (local_item dir imports_map) P,
                if off + 50 \<ge> int (length F) then None else Some (off + 50))"
    unfolding same P_def F_def using off by (rule local_search_page)
  have 1: "fst (local_search lower dir (Some files) imports_map query pos)
             = map (local_item dir imports_map) P"
    by (simp add: r)
  have 2: "(snd (local_search lower dir (Some files) imports_map query pos) = None)
             = (off + int (length (map (local_item dir imports_map) P)) \<ge> int (length F))"
    by (simp add: r pf(2))
  have 3: "snd (local_search lower dir (Some files) imports_map query pos) \<noteq> None
             \<longrightarrow> snd (local_search lower dir (Some files) imports_map query pos)
                   = Some (off + int (length (map (local_item dir imports_map) P)))"
    using pf(3) by (simp add: r)
  have 4: "length F \<le> 50 \<longrightarrow> local_search lower dir (Some files) imports_map query None
             = (map (local_item dir imports_map) F, None)"
    using local_search_page [of 0 lower dir files imports_map query]
    by (simp add: local_search_None F_def)
  from 1 2 3 4 show ?thesis
    unfolding off_def F_def P_def by simp
qed

text \<open>
  Witness for C9: a directory with three matching entries and one other; the first
  call returns the three, in the order of the listing, and no cursor.
\<close>

theorem local_search_slice_witness:
  "0 \<le> offset_of None
   \<and> local_search ascii_lower (ustr ''/imgs'') (Some three_files) Map.empty [] None
       = (map (local_item (ustr ''/imgs'') Map.empty)
            [ustr ''b.png'', ustr ''a.PNG'', ustr ''c.gif''], None)"
  using local_search_slice [of None ascii_lower "ustr ''/imgs''" three_files Map.empty "[]"]
  by (simp add: three_files_matching)

text \<open>
  Counterexample to C9 as stated: the source does not sort. When \<open>os.listdir\<close> returns
  \<open>b.png\<close> before \<open>a.png\<close>, so does the page, and its names are not in lexicographic
  order.
\<close>

theorem local_search_unsorted:
  "map name (fst (local_search ascii_lower (ustr ''/imgs'') (Some two_files) Map.empty [] None))
     = [ustr ''b.png'', ustr ''a.png'']
   \<and> \<not> sorted (map name
         (fst (local_search ascii_lower (ustr ''/imgs'') (Some two_files) Map.empty [] None)))"
proof -
  have len: "length two_files = 2" by (simp add: two_files_def)
  have m: "filter (local_match ascii_lower []) two_files = two_files"
    by (simp add: two_files_def local_match_def image_exts_def endswith_def ascii_lower_def
        ustr_def)
  have "local_search ascii_lower (ustr ''/imgs'') (Some two_files) Map.empty [] None
          = (map (local_item (ustr ''/imgs'') Map.empty) two_files, None)"
    using local_search_page [of 0 ascii_lower "ustr ''/imgs''" two_files Map.empty "[]"]
      len by (simp add: local_search_None m)
  then have "map name (fst (local_search ascii_lower (ustr ''/imgs'') (Some two_files)
                 Map.empty [] None)) = [ustr ''b.png'', ustr ''a.png'']"
    by (simp add: two_files_def local_item_def)
  then show ?thesis by (simp add: ustr_def)
qed

section \<open>Properties of the Tenor source\<close>

lemma tenor_search_ok_example:
  "tenor_search id (\<lambda>req. Returns (Response 200 (Some one_gif_body))) (JStr DEFAULT_TENOR_KEY)
       (ustr ''cat'') JNull
     = ([JObj [(ustr ''name'', JStr (ustr ''cat'')), (ustr ''url'', JStr (ustr ''https://m.example/cat'')),
               (ustr ''type'', JStr (ustr ''gif'')), (ustr ''source'', JStr (ustr ''Tenor''))]],
        JStr (ustr ''42''))"
  by (simp add: tenor_search_def one_gif_body_def obind_def tenor_item_def gif_url_of_def
      title_of_def tiny_or_gif_def url_of_obj_def ustr_def)

text \<open>
  C4. When the HTTP request of the Tenor source raises, or returns a response whose
  status is not 200, \<open>search\<close> returns the empty list and no cursor, whatever the query,
  the cursor and the configured key; the result is a value, no exception leaves
  \<open>search\<close>.
\<close>

theorem tenor_search_soft_failure:
  assumes "requests_get (tenor_request api_key query pos) = Raises
         \<or> (\<exists>status_code body.
               requests_get (tenor_request api_key query pos)
                 = Returns (Response status_code body)
               \<and> status_code \<noteq> 200)"
  shows "tenor_search strip requests_get api_key query pos = ([], JNull)"
  using assms by (auto simp: tenor_search_def)

text \<open>Witness for C4: a server that answers 500, and a network that raises.\<close>

theorem tenor_search_soft_failure_witness:
  "tenor_search id (\<lambda>req. Returns (Response 500 (Some one_gif_body))) (JStr DEFAULT_TENOR_KEY)
       (ustr ''cat'') JNull = ([], JNull)
   \<and> tenor_search id (\<lambda>req. Raises) (JStr (ustr ''own key'')) (ustr ''cat'') (JStr (ustr ''42''))
       = ([], JNull)"
  using tenor_search_soft_failure [of "\<lambda>req. Returns (Response 500 (Some one_gif_body))"
      "JStr DEFAULT_TENOR_KEY" "ustr ''cat''" JNull id]
    tenor_search_soft_failure [of "\<lambda>req. Raises" "JStr (ustr ''own key'')" "ustr ''cat''"
      "JStr (ustr ''42'')" id]
  by simp

section \<open>Properties of the scroll driver\<close>

lemma trigger_noop:
  "is_loading t \<or> \<not> truthy (next_ptr t) \<Longrightarrow>
   check_scroll past t = t \<and> fill_screen_if_needed unfilled t = t"
  by (auto simp: check_scroll_def fill_screen_if_needed_def)

lemma session_invariant:
  "session_reach s \<Longrightarrow> length (workers s) = (if is_loading s then 1 else 0)"
proof (induction rule: session_reach.induct)
  case (start s combo_text input_text)
  then show ?case by (simp add: search_def load_more_def)
next
  case (scroll s past)
  then show ?case by (auto simp: check_scroll_def load_more_def split: if_splits)
next
  case (fill s unfilled)
  then show ?case by (auto simp: fill_screen_if_needed_def load_more_def split: if_splits)
next
  case (ready s k results next_pos)
  then have "length (workers s) = 1" and "k = 0"
    by (auto split: if_splits)
  then show ?case
    by (simp add: results_ready_def display_results_def Let_def)
qed

text \<open>
  C1 (as amended). While \<open>is_loading\<close> is set or the cursor is \<open>None\<close> (or any other
  false value), the scroll trigger and the fill-to-viewport trigger change nothing: no
  fetch is started. So in every state of a session that began with no fetch
  outstanding, at most one fetch is outstanding, and one is exactly when \<open>is_loading\<close>
  is set.
\<close>

theorem one_fetch_per_session:
  "(is_loading t \<or> \<not> truthy (next_ptr t)
      \<longrightarrow> check_scroll past t = t \<and> fill_screen_if_needed unfilled t = t)
   \<and> (session_reach s
      \<longrightarrow> length (workers s) \<le> 1 \<and> (is_loading s \<longleftrightarrow> workers s \<noteq> []))"
proof -
  have "length (workers s) \<le> 1 \<and> (is_loading s \<longleftrightarrow> workers s \<noteq> [])" if "session_reach s"
    using session_invariant [OF that] by (auto split: if_splits)
  then show ?thesis using trigger_noop [of t past unfilled] by blast
qed

text \<open>
  Witness for C1: a first search from the initial state; while its page is awaited
  both triggers leave the state as it is, with the one fetch outstanding.
\<close>

theorem one_fetch_per_session_witness:
  "session_reach (search (ustr ''Emojis'') (ustr ''cat'') init_app)
   \<and> is_loading (search (ustr ''Emojis'') (ustr ''cat'') init_app)
   \<and> check_scroll True (search (ustr ''Emojis'') (ustr ''cat'') init_app)
       = search (ustr ''Emojis'') (ustr ''cat'') init_app
   \<and> fill_screen_if_needed True (search (ustr ''Emojis'') (ustr ''cat'') init_app)
       = search (ustr ''Emojis'') (ustr ''cat'') init_app
   \<and> length (workers (search (ustr ''Emojis'') (ustr ''cat'') init_app)) = 1"
proof -
  have r: "session_reach (search (ustr ''Emojis'') (ustr ''cat'') init_app)"
    by (rule session_reach.start) (simp add: init_app_def)
  have l: "is_loading (search (ustr ''Emojis'') (ustr ''cat'') init_app)"
    by (simp add: search_def load_more_def)
  from r l show ?thesis
    using one_fetch_per_session [of "search (ustr ''Emojis'') (ustr ''cat'') init_app" True True
        "search (ustr ''Emojis'') (ustr ''cat'') init_app"]
    by (simp add: search_def load_more_def init_app_def)
qed

lemma run_two_searches:
  "run two_searches init_app
     = \<lparr>next_ptr = JNull, is_loading = True, current_query = ustr ''dog'',
        current_source_name = ustr ''Tenor'', search_card_widgets = [],
        loading_indicator = True,
        workers = [\<lparr>f_source = ustr ''Tenor'', f_query = ustr ''cat'', f_pos = JNull\<rparr>,
                   \<lparr>f_source = ustr ''Tenor'', f_query = ustr ''dog'', f_pos = JNull\<rparr>]\<rparr>"
  by (simp add: two_searches_def search_def load_more_def init_app_def)

text \<open>
  Counterexample to C1 as stated: a second search is submitted while the page of the
  first is awaited; that page arrives and clears \<open>is_loading\<close>; the fill-to-viewport
  timer then starts a fetch although the first fetch of the second search is still
  outstanding. Both outstanding fetches are for the query of the current session.
\<close>

theorem two_fetches_outstanding:
  "workers (run (two_searches @ [Ready 0 [cat_gif] (JStr (ustr ''50'')), Fill True]) init_app)
     = [\<lparr>f_source = ustr ''Tenor'', f_query = ustr ''dog'', f_pos = JNull\<rparr>,
        \<lparr>f_source = ustr ''Tenor'', f_query = ustr ''dog'', f_pos = JStr (ustr ''50'')\<rparr>]
   \<and> current_query (run (two_searches @ [Ready 0 [cat_gif] (JStr (ustr ''50'')), Fill True])
        init_app) = ustr ''dog''"
proof -
  have "run (two_searches @ [Ready 0 [cat_gif] (JStr (ustr ''50'')), Fill True]) init_app
          = step (Fill True) (step (Ready 0 [cat_gif] (JStr (ustr ''50'')))
              (run two_searches init_app))"
    by (simp add: two_searches_def)
  then show ?thesis
    unfolding run_two_searches
    by (simp add: results_ready_def display_results_def fill_screen_if_needed_def
        load_more_def Let_def ustr_def)
qed

text \<open>
  C2 (as amended). A new search clears the result list and resets the cursor, but the
  fetch of the previous session stays outstanding, and \<open>display_results\<close> does not look
  at which search a page answers: the page of any outstanding fetch, when it arrives,
  clears \<open>is_loading\<close>, makes its cursor the current one and has its items appended to
  the current result list.
\<close>

theorem late_page_is_applied:
  assumes "k < length (workers s)"
  shows "step (Ready k results next_pos) s = results_ready k results next_pos s
       \<and> next_ptr (results_ready k results next_pos s) = next_pos
       \<and> \<not> is_loading (results_ready k results next_pos s)
       \<and> current_query (results_ready k results next_pos s) = current_query s
       \<and> search_card_widgets (results_ready k results next_pos s)
           = (if results = [] \<and> search_card_widgets s = []
              then [Label (ustr ''No results found.'')]
              else search_card_widgets s @ map Card results)
       \<and> search_card_widgets (search combo_text input_text s) = []
       \<and> next_ptr (search combo_text input_text s) = JNull
       \<and> workers (search combo_text input_text s)
           = workers s @ [\<lparr>f_source = combo_text, f_query = input_text, f_pos = JNull\<rparr>]"
  using assms
  by (simp add: results_ready_def display_results_def search_def load_more_def Let_def)

text \<open>
  Witness for C2: after two searches the fetch of the first is still outstanding, and
  its page becomes the result list and the cursor of the second.
\<close>

theorem late_page_is_applied_witness:
  "0 < length (workers (run two_searches init_app))
   \<and> f_query (workers (run two_searches init_app) ! 0) = ustr ''cat''
   \<and> current_query (run two_searches init_app) = ustr ''dog''
   \<and> next_ptr (results_ready 0 [cat_gif] (JStr (ustr ''50'')) (run two_searches init_app))
       = JStr (ustr ''50'')
   \<and> search_card_widgets
         (results_ready 0 [cat_gif] (JStr (ustr ''50'')) (run two_searches init_app))
       = [Card cat_gif]"
  using late_page_is_applied [of 0 "run two_searches init_app" "[cat_gif]" "JStr (ustr ''50'')"
      "[]" "[]"]
  by (simp add: run_two_searches)

text \<open>
  Counterexample to C2 as stated: the page fetched for \<open>cat\<close> arrives after the search
  for \<open>dog\<close> was started; its item is in the result list of the \<open>dog\<close> session and its
  cursor is that session's cursor.
\<close>

theorem stale_page_counterexample:
  "current_query (run (two_searches @ [Ready 0 [cat_gif] (JStr (ustr ''50''))]) init_app)
     = ustr ''dog''
   \<and> search_card_widgets (run (two_searches @ [Ready 0 [cat_gif] (JStr (ustr ''50''))]) init_app)
       = [Card cat_gif]
   \<and> next_ptr (run (two_searches @ [Ready 0 [cat_gif] (JStr (ustr ''50''))]) init_app)
       = JStr (ustr ''50'')
   \<and> workers (run (two_searches @ [Ready 0 [cat_gif] (JStr (ustr ''50''))]) init_app)
       = [\<lparr>f_source = ustr ''Tenor'', f_query = ustr ''dog'', f_pos = JNull\<rparr>]"
proof -
  have "run (two_searches @ [Ready 0 [cat_gif] (JStr (ustr ''50''))]) init_app
          = step (Ready 0 [cat_gif] (JStr (ustr ''50''))) (run two_searches init_app)"
    by (simp add: two_searches_def)
  then show ?thesis
    unfolding run_two_searches
    by (simp add: results_ready_def display_results_def Let_def)
qed

end
